theory Spec2Isabelle
  imports Main "HOL-Library.Word"
begin

section \<open>JavaScript strings\<close>

text \<open>
  A JavaScript string is a sequence of 16-bit code units. String literals of the source
  are written with \<open>js\<close>, which maps every character of an ASCII literal to its code unit.
\<close>

type_synonym jsstring = "16 word list"

definition js :: "string \<Rightarrow> jsstring" where
  "js s = map of_char s"

text \<open>
  \<open>String.prototype.trim\<close> removes the code units of WhiteSpace and LineTerminator from
  both ends: TAB, LF, VT, FF, CR, SP, NBSP, U+1680, U+2000 to U+200A, U+2028, U+2029, U+202F,
  U+205F, U+3000 and U+FEFF.
\<close>

definition is_trim_space :: "16 word \<Rightarrow> bool" where
  "is_trim_space c \<longleftrightarrow>
     c = 0x09 \<or> c = 0x0A \<or> c = 0x0B \<or> c = 0x0C \<or> c = 0x0D \<or> c = 0x20 \<or> c = 0xA0 \<or>
     c = 0x1680 \<or> (0x2000 \<le> c \<and> c \<le> 0x200A) \<or> c = 0x2028 \<or> c = 0x2029 \<or>
     c = 0x202F \<or> c = 0x205F \<or> c = 0x3000 \<or> c = 0xFEFF"

definition trim :: "jsstring \<Rightarrow> jsstring" where
  "trim s = rev (dropWhile is_trim_space (rev (dropWhile is_trim_space s)))"

text \<open>
  The decimal digits of an integer, as the template literal prints \<open>Date.now()\<close>
  (a time value is an integer of magnitude below \<open>10^21\<close>, which prints without exponent).
\<close>

definition digit :: "nat \<Rightarrow> 16 word" where
  "digit d = of_nat (48 + d)"

function show_nat :: "nat \<Rightarrow> jsstring" where
  "show_nat n = (if n < 10 then [digit n] else show_nat (n div 10) @ [digit (n mod 10)])"
  by pat_completeness auto
termination
  by (relation "measure (\<lambda>n. n)") auto

declare show_nat.simps [simp del]

definition show_int :: "int \<Rightarrow> jsstring" where
  "show_int i = (if i < 0 then js ''-'' @ show_nat (nat (- i)) else show_nat (nat i))"

section \<open>The Task model (task.model.ts)\<close>

text \<open>
  The field \<open>id\<close> of the interface is called \<open>id'\<close> here, since \<open>id\<close> is the identity
  function of HOL.
\<close>

record Task =
  id' :: jsstring
  title :: jsstring
  isComplete :: bool

section \<open>JSON.stringify on a Task array\<close>

text \<open>
  QuoteJSONString of ECMAScript: the two-character escapes for backspace, tab, line feed,
  form feed, carriage return, the quotation mark and the backslash; a \<open>\u\<close> escape with four
  lower-case hexadecimal digits for every other code unit below U+0020 and for every
  surrogate that is not part of a pair; every other code unit as it is.
\<close>

definition hex_digit :: "nat \<Rightarrow> 16 word" where
  "hex_digit d = (if d < 10 then of_nat (48 + d) else of_nat (87 + d))"

definition UnicodeEscape :: "16 word \<Rightarrow> jsstring" where
  "UnicodeEscape c =
     [0x5C, 0x75,
      hex_digit (unat c div 4096 mod 16), hex_digit (unat c div 256 mod 16),
      hex_digit (unat c div 16 mod 16), hex_digit (unat c mod 16)]"

definition is_high_surrogate :: "16 word \<Rightarrow> bool" where
  "is_high_surrogate c \<longleftrightarrow> 0xD800 \<le> c \<and> c \<le> 0xDBFF"

definition is_low_surrogate :: "16 word \<Rightarrow> bool" where
  "is_low_surrogate c \<longleftrightarrow> 0xDC00 \<le> c \<and> c \<le> 0xDFFF"

fun quote_chars :: "jsstring \<Rightarrow> jsstring" where
  "quote_chars [] = []"
| "quote_chars (c # cs) =
     (if c = 0x08 then [0x5C, 0x62] @ quote_chars cs
      else if c = 0x09 then [0x5C, 0x74] @ quote_chars cs
      else if c = 0x0A then [0x5C, 0x6E] @ quote_chars cs
      else if c = 0x0C then [0x5C, 0x66] @ quote_chars cs
      else if c = 0x0D then [0x5C, 0x72] @ quote_chars cs
      else if c = 0x22 then [0x5C, 0x22] @ quote_chars cs
      else if c = 0x5C then [0x5C, 0x5C] @ quote_chars cs
      else if c < 0x20 then UnicodeEscape c @ quote_chars cs
      else if is_high_surrogate c then
        (case cs of
           [] \<Rightarrow> UnicodeEscape c
         | d # ds \<Rightarrow>
             if is_low_surrogate d then c # d # quote_chars ds
             else UnicodeEscape c @ quote_chars cs)
      else if is_low_surrogate c then UnicodeEscape c @ quote_chars cs
      else c # quote_chars cs)"

definition QuoteJSONString :: "jsstring \<Rightarrow> jsstring" where
  "QuoteJSONString s = [0x22] @ quote_chars s @ [0x22]"

text \<open>
  A Task object is serialised with its own properties in creation order: \<open>id\<close>, \<open>title\<close>,
  \<open>isComplete\<close> (the order of the object literal of \<open>createNewTask\<close>, which the spread
  of \<open>updateTaskStatus\<close> keeps). No gap is given, so there is no white space.
\<close>

definition stringify_task :: "Task \<Rightarrow> jsstring" where
  "stringify_task t =
     [0x7B] @ QuoteJSONString (js ''id'') @ [0x3A] @ QuoteJSONString (id' t) @
     [0x2C] @ QuoteJSONString (js ''title'') @ [0x3A] @ QuoteJSONString (title t) @
     [0x2C] @ QuoteJSONString (js ''isComplete'') @ [0x3A] @
     (if isComplete t then js ''true'' else js ''false'') @ [0x7D]"

fun join_comma :: "jsstring list \<Rightarrow> jsstring" where
  "join_comma [] = []"
| "join_comma [x] = x"
| "join_comma (x # y # ys) = x @ [0x2C] @ join_comma (y # ys)"

definition JSON_stringify :: "Task list \<Rightarrow> jsstring" where
  "JSON_stringify ts = [0x5B] @ join_comma (map stringify_task ts) @ [0x5D]"

section \<open>JSON.parse\<close>

text \<open>
  The value that \<open>JSON.parse\<close> builds. A number keeps its text (its numeric value plays no
  part here). An object lists its properties in creation order.
\<close>

datatype json =
    JNull
  | JBool bool
  | JNum jsstring
  | JStr jsstring
  | JArr "json list"
  | JObj "(jsstring \<times> json) list"

datatype 'a result = Ok 'a | SyntaxError | OutOfFuel

definition is_json_ws :: "16 word \<Rightarrow> bool" where
  "is_json_ws c \<longleftrightarrow> c = 0x20 \<or> c = 0x09 \<or> c = 0x0A \<or> c = 0x0D"

definition skip_ws :: "jsstring \<Rightarrow> jsstring" where
  "skip_ws s = dropWhile is_json_ws s"

definition hex_val :: "16 word \<Rightarrow> nat option" where
  "hex_val c =
     (if 0x30 \<le> c \<and> c \<le> 0x39 then Some (unat c - 48)
      else if 0x61 \<le> c \<and> c \<le> 0x66 then Some (unat c - 87)
      else if 0x41 \<le> c \<and> c \<le> 0x46 then Some (unat c - 55)
      else None)"

definition hex4 :: "16 word \<Rightarrow> 16 word \<Rightarrow> 16 word \<Rightarrow> 16 word \<Rightarrow> 16 word option" where
  "hex4 a b c d =
     (case (hex_val a, hex_val b, hex_val c, hex_val d) of
        (Some w, Some x, Some y, Some z) \<Rightarrow> Some (of_nat (4096 * w + 256 * x + 16 * y + z))
      | _ \<Rightarrow> None)"

definition simple_escape :: "16 word \<Rightarrow> 16 word option" where
  "simple_escape c =
     (if c = 0x22 then Some 0x22
      else if c = 0x5C then Some 0x5C
      else if c = 0x2F then Some 0x2F
      else if c = 0x62 then Some 0x08
      else if c = 0x66 then Some 0x0C
      else if c = 0x6E then Some 0x0A
      else if c = 0x72 then Some 0x0D
      else if c = 0x74 then Some 0x09
      else None)"

definition cons_fst :: "'a \<Rightarrow> ('a list \<times> 'b) option \<Rightarrow> ('a list \<times> 'b) option" where
  "cons_fst c r = (case r of None \<Rightarrow> None | Some (cs, rest) \<Rightarrow> Some (c # cs, rest))"

text \<open>
  The characters of a string literal after its opening quotation mark, up to the closing one:
  the decoded string and the text that follows. Unescaped code units below U+0020 are not
  allowed.
\<close>

fun parse_chars :: "jsstring \<Rightarrow> (jsstring \<times> jsstring) option" where
  "parse_chars [] = None"
| "parse_chars (c # cs) =
     (if c = 0x22 then Some ([], cs)
      else if c = 0x5C then
        (case cs of
           [] \<Rightarrow> None
         | x # r \<Rightarrow>
             if x = 0x75 then
               (case r of
                  h1 # h2 # h3 # h4 # r' \<Rightarrow>
                    (case hex4 h1 h2 h3 h4 of
                       None \<Rightarrow> None
                     | Some u \<Rightarrow> cons_fst u (parse_chars r'))
                | _ \<Rightarrow> None)
             else
               (case simple_escape x of
                  None \<Rightarrow> None
                | Some u \<Rightarrow> cons_fst u (parse_chars r)))
      else if c < 0x20 then None
      else cons_fst c (parse_chars cs))"

text \<open>
  A number: an optional minus sign, \<open>0\<close> or a digit sequence without leading zero, an optional
  fraction and an optional exponent, each with at least one digit.
\<close>

definition is_digit :: "16 word \<Rightarrow> bool" where
  "is_digit c \<longleftrightarrow> 0x30 \<le> c \<and> c \<le> 0x39"

definition scan_digits :: "jsstring \<Rightarrow> (jsstring \<times> jsstring) option" where
  "scan_digits s =
     (if takeWhile is_digit s = [] then None
      else Some (takeWhile is_digit s, dropWhile is_digit s))"

definition scan_int :: "jsstring \<Rightarrow> (jsstring \<times> jsstring) option" where
  "scan_int s =
     (case s of
        [] \<Rightarrow> None
      | c # r \<Rightarrow> if c = 0x30 then Some ([c], r) else scan_digits s)"

definition scan_frac :: "jsstring \<Rightarrow> (jsstring \<times> jsstring) option" where
  "scan_frac s =
     (case s of
        [] \<Rightarrow> Some ([], s)
      | c # r \<Rightarrow>
          if c = 0x2E then
            (case scan_digits r of None \<Rightarrow> None | Some (ds, r') \<Rightarrow> Some (c # ds, r'))
          else Some ([], s))"

definition scan_exp :: "jsstring \<Rightarrow> (jsstring \<times> jsstring) option" where
  "scan_exp s =
     (case s of
        [] \<Rightarrow> Some ([], s)
      | c # r \<Rightarrow>
          if c = 0x65 \<or> c = 0x45 then
            (case r of
               [] \<Rightarrow> None
             | g # r' \<Rightarrow>
                 if g = 0x2B \<or> g = 0x2D then
                   (case scan_digits r' of
                      None \<Rightarrow> None
                    | Some (ds, r'') \<Rightarrow> Some (c # g # ds, r''))
                 else
                   (case scan_digits r of
                      None \<Rightarrow> None
                    | Some (ds, r'') \<Rightarrow> Some (c # ds, r'')))
          else Some ([], s))"

definition scan_number :: "jsstring \<Rightarrow> (jsstring \<times> jsstring) option" where
  "scan_number s =
     (let (sign, s1) = (case s of [] \<Rightarrow> ([], s) | c # r \<Rightarrow> if c = 0x2D then ([c], r) else ([], s))
      in case scan_int s1 of
           None \<Rightarrow> None
         | Some (ip, s2) \<Rightarrow>
             (case scan_frac s2 of
                None \<Rightarrow> None
              | Some (fp, s3) \<Rightarrow>
                  (case scan_exp s3 of
                     None \<Rightarrow> None
                   | Some (ep, s4) \<Rightarrow> Some (sign @ ip @ fp @ ep, s4))))"

definition strip_prefix :: "jsstring \<Rightarrow> jsstring \<Rightarrow> jsstring option" where
  "strip_prefix p s = (if take (length p) s = p then Some (drop (length p) s) else None)"

text \<open>
  Defining a property on the object under construction: a key that is already there keeps
  its place and takes the new value (the last of several equal keys wins).
\<close>

fun define_property :: "jsstring \<Rightarrow> json \<Rightarrow> (jsstring \<times> json) list \<Rightarrow> (jsstring \<times> json) list" where
  "define_property k v [] = [(k, v)]"
| "define_property k v ((k', v') # ps) =
     (if k' = k then (k, v) # ps else (k', v') # define_property k v ps)"

text \<open>
  The recursive-descent parser. Its first argument bounds the depth of the recursion, which
  makes the definition structural; \<open>OutOfFuel\<close> is the answer when the bound is reached.
  \<open>parse_elements\<close> reads the elements of an array after its opening bracket,
  \<open>parse_members\<close> the members of an object after its opening brace; both are entered
  only when the array or object is not empty.
\<close>

fun parse_value :: "nat \<Rightarrow> jsstring \<Rightarrow> (json \<times> jsstring) result"
  and parse_elements :: "nat \<Rightarrow> jsstring \<Rightarrow> json list \<Rightarrow> (json list \<times> jsstring) result"
  and parse_members ::
    "nat \<Rightarrow> jsstring \<Rightarrow> (jsstring \<times> json) list \<Rightarrow> ((jsstring \<times> json) list \<times> jsstring) result"
where
  "parse_value 0 s = OutOfFuel"
| "parse_value (Suc n) s =
     (case skip_ws s of
        [] \<Rightarrow> SyntaxError
      | c # r \<Rightarrow>
          if c = 0x22 then
            (case parse_chars r of
               None \<Rightarrow> SyntaxError
             | Some (str, r') \<Rightarrow> Ok (JStr str, r'))
          else if c = 0x5B then
            (case skip_ws r of
               [] \<Rightarrow> SyntaxError
             | c' # r' \<Rightarrow>
                 if c' = 0x5D then Ok (JArr [], r')
                 else
                   (case parse_elements n r [] of
                      Ok (vs, r'') \<Rightarrow> Ok (JArr vs, r'')
                    | SyntaxError \<Rightarrow> SyntaxError
                    | OutOfFuel \<Rightarrow> OutOfFuel))
          else if c = 0x7B then
            (case skip_ws r of
               [] \<Rightarrow> SyntaxError
             | c' # r' \<Rightarrow>
                 if c' = 0x7D then Ok (JObj [], r')
                 else
                   (case parse_members n r [] of
                      Ok (ps, r'') \<Rightarrow> Ok (JObj ps, r'')
                    | SyntaxError \<Rightarrow> SyntaxError
                    | OutOfFuel \<Rightarrow> OutOfFuel))
          else if c = 0x74 then
            (case strip_prefix (js ''true'') (c # r) of
               None \<Rightarrow> SyntaxError
             | Some r' \<Rightarrow> Ok (JBool True, r'))
          else if c = 0x66 then
            (case strip_prefix (js ''false'') (c # r) of
               None \<Rightarrow> SyntaxError
             | Some r' \<Rightarrow> Ok (JBool False, r'))
          else if c = 0x6E then
            (case strip_prefix (js ''null'') (c # r) of
               None \<Rightarrow> SyntaxError
             | Some r' \<Rightarrow> Ok (JNull, r'))
          else
            (case scan_number (c # r) of
               None \<Rightarrow> SyntaxError
             | Some (num, r') \<Rightarrow> Ok (JNum num, r')))"
| "parse_elements 0 s acc = OutOfFuel"
| "parse_elements (Suc n) s acc =
     (case parse_value n s of
        Ok (v, r) \<Rightarrow>
          (case skip_ws r of
             [] \<Rightarrow> SyntaxError
           | c # r' \<Rightarrow>
               if c = 0x2C then parse_elements n r' (acc @ [v])
               else if c = 0x5D then Ok (acc @ [v], r')
               else SyntaxError)
      | SyntaxError \<Rightarrow> SyntaxError
      | OutOfFuel \<Rightarrow> OutOfFuel)"
| "parse_members 0 s acc = OutOfFuel"
| "parse_members (Suc n) s acc =
     (case skip_ws s of
        [] \<Rightarrow> SyntaxError
      | q # r \<Rightarrow>
          if q = 0x22 then
            (case parse_chars r of
               None \<Rightarrow> SyntaxError
             | Some (k, r1) \<Rightarrow>
                 (case skip_ws r1 of
                    [] \<Rightarrow> SyntaxError
                  | c # r2 \<Rightarrow>
                      if c = 0x3A then
                        (case parse_value n r2 of
                           Ok (v, r3) \<Rightarrow>
                             (case skip_ws r3 of
                                [] \<Rightarrow> SyntaxError
                              | d # r4 \<Rightarrow>
                                  if d = 0x2C then parse_members n r4 (define_property k v acc)
                                  else if d = 0x7D then Ok (define_property k v acc, r4)
                                  else SyntaxError)
                         | SyntaxError \<Rightarrow> SyntaxError
                         | OutOfFuel \<Rightarrow> OutOfFuel)
                      else SyntaxError))
          else SyntaxError)"

text \<open>
  \<open>JSON.parse\<close>: one value, with nothing but white space after it; \<open>None\<close> is the
  SyntaxError it throws. The bound \<open>2 * length s + 1\<close> is never reached
  (lemma \<open>parse_value_fuel\<close> below).
\<close>

definition JSON_parse :: "jsstring \<Rightarrow> json option" where
  "JSON_parse s =
     (case parse_value (2 * length s + 1) s of
        Ok (v, r) \<Rightarrow> if skip_ws r = [] then Some v else None
      | SyntaxError \<Rightarrow> None
      | OutOfFuel \<Rightarrow> None)"

text \<open>
  The source annotates the parsed value as \<open>Task[]\<close> without checking it. A parsed value
  is such an array when it is an array of objects whose properties are exactly \<open>id\<close> and
  \<open>title\<close> (strings) and \<open>isComplete\<close> (a boolean), in this order.
\<close>

definition task_of_json :: "json \<Rightarrow> Task option" where
  "task_of_json v =
     (case v of
        JObj [(k1, JStr i), (k2, JStr t), (k3, JBool b)] \<Rightarrow>
          if k1 = js ''id'' \<and> k2 = js ''title'' \<and> k3 = js ''isComplete''
          then Some \<lparr>id' = i, title = t, isComplete = b\<rparr>
          else None
      | _ \<Rightarrow> None)"

definition tasks_of_json :: "json \<Rightarrow> Task list option" where
  "tasks_of_json v = (case v of JArr vs \<Rightarrow> those (map task_of_json vs) | _ \<Rightarrow> None)"

definition json_of_task :: "Task \<Rightarrow> json" where
  "json_of_task t =
     JObj [(js ''id'', JStr (id' t)), (js ''title'', JStr (title t)),
           (js ''isComplete'', JBool (isComplete t))]"

definition json_of_tasks :: "Task list \<Rightarrow> json" where
  "json_of_tasks ts = JArr (map json_of_task ts)"

section \<open>The state: the BehaviorSubject, localStorage and what an observer sees\<close>

text \<open>
  \<open>tasks\<close> is the value held by \<open>tasks$\<close> of ApplicationTaskStateService (initially the
  empty array), \<open>localStorage\<close> the key-value storage of the browser. \<open>trace\<close> records, in
  program order, every \<open>tasks$.next\<close>, every call of \<open>localStorage.setItem\<close> and every
  \<open>console.warn\<close> and \<open>console.error\<close> (with its message); \<open>console.log\<close> is not recorded.
\<close>

datatype event =
    Commit "Task list"
  | SetItem jsstring jsstring
  | Warn jsstring
  | Error jsstring

record state =
  tasks :: "Task list"
  localStorage :: "jsstring \<rightharpoonup> jsstring"
  trace :: "event list"

definition initial :: "(jsstring \<rightharpoonup> jsstring) \<Rightarrow> state" where
  "initial storage = \<lparr>tasks = [], localStorage = storage, trace = []\<rparr>"

text \<open>
  What the platform decides during one call: whether \<open>window.localStorage\<close> exists, whether
  reading or writing it throws, the clock, and the five characters that
  \<open>Math.random().toString(36).substring(2, 7)\<close> yields (at most five of \<open>0-9a-z\<close>).
\<close>

record env =
  has_localStorage :: bool
  getItem_throws :: bool
  setItem_throws :: bool
  Date_now :: int
  random_suffix :: jsstring

text \<open>How the promise of an async method settles.\<close>

datatype outcome = Resolved | Rejected

definition TASKS_STORAGE_KEY :: jsstring where
  "TASKS_STORAGE_KEY = js ''tutorialAppTasks''"

definition emit :: "event list \<Rightarrow> state \<Rightarrow> state" where
  "emit es st = st\<lparr>trace := trace st @ es\<rparr>"

text \<open>\<open>tasks$.next(list)\<close>: the subject holds the new array and tells its subscribers.\<close>

definition next_tasks :: "Task list \<Rightarrow> state \<Rightarrow> state" where
  "next_tasks ts st = emit [Commit ts] (st\<lparr>tasks := ts\<rparr>)"

section \<open>TaskCrudOperationsService: saving\<close>

definition saveTasksToDevice :: "env \<Rightarrow> Task list \<Rightarrow> state \<Rightarrow> outcome \<times> state" where
  "saveTasksToDevice e ts st =
     (if has_localStorage e then
        (let tasksJson = JSON_stringify ts in
         if setItem_throws e then
           (Rejected,
            emit [SetItem TASKS_STORAGE_KEY tasksJson,
                  Error (js ''Error saving tasks to localStorage:'')] st)
         else
           (Resolved,
            emit [SetItem TASKS_STORAGE_KEY tasksJson]
              (st\<lparr>localStorage := (localStorage st)(TASKS_STORAGE_KEY \<mapsto> tasksJson)\<rparr>)))
      else
        (Resolved, emit [Warn (js ''localStorage is not available. Tasks cannot be saved.'')] st))"

section \<open>TaskCrudOperationsService: create, update, delete\<close>

definition new_task_id :: "env \<Rightarrow> jsstring" where
  "new_task_id e = js ''task-'' @ show_int (Date_now e) @ js ''-'' @ random_suffix e"

definition createNewTask :: "env \<Rightarrow> jsstring \<Rightarrow> state \<Rightarrow> outcome \<times> state" where
  "createNewTask e ttl st =
     (if ttl = [] \<or> trim ttl = [] then
        (Resolved, emit [Warn (js ''Cannot create task with empty title.'')] st)
      else
        (let newTask = \<lparr>id' = new_task_id e, title = trim ttl, isComplete = False\<rparr>;
             currentTasks = tasks st;
             updatedTasks = currentTasks @ [newTask]
         in saveTasksToDevice e updatedTasks (next_tasks updatedTasks st)))"

definition updateTaskStatus :: "env \<Rightarrow> jsstring \<Rightarrow> bool \<Rightarrow> state \<Rightarrow> outcome \<times> state" where
  "updateTaskStatus e taskId b st =
     (let currentTasks = tasks st;
          updatedTasks =
            map (\<lambda>task. if id' task = taskId then task\<lparr>isComplete := b\<rparr> else task) currentTasks
      in if JSON_stringify currentTasks \<noteq> JSON_stringify updatedTasks then
           saveTasksToDevice e updatedTasks (next_tasks updatedTasks st)
         else
           (Resolved,
            emit [Warn (js ''Task with ID: '' @ taskId @ js '' not found for updating status.'')] st))"

definition deleteTask :: "env \<Rightarrow> jsstring \<Rightarrow> state \<Rightarrow> outcome \<times> state" where
  "deleteTask e taskId st =
     (let currentTasks = tasks st;
          updatedTasks = filter (\<lambda>task. id' task \<noteq> taskId) currentTasks
      in if length currentTasks \<noteq> length updatedTasks then
           saveTasksToDevice e updatedTasks (next_tasks updatedTasks st)
         else
           (Resolved,
            emit [Warn (js ''Task with ID: '' @ taskId @ js '' not found for deletion.'')] st))"

section \<open>TaskCrudOperationsService: loading\<close>

text \<open>
  \<open>_loadTasksFromDevice\<close> never rejects: it resolves with the parsed value, or with the
  empty array when there is no storage, no item under the key (or an empty one, which is
  falsy), or when reading or parsing throws.
\<close>

definition loadTasksFromDevice :: "env \<Rightarrow> state \<Rightarrow> json \<times> state" where
  "loadTasksFromDevice e st =
     (if has_localStorage e then
        (if getItem_throws e then
           (JArr [], emit [Error (js ''Error loading tasks from localStorage:'')] st)
         else
           (case localStorage st TASKS_STORAGE_KEY of
              None \<Rightarrow> (JArr [], st)
            | Some tasksJson \<Rightarrow>
                if tasksJson = [] then (JArr [], st)
                else
                  (case JSON_parse tasksJson of
                     None \<Rightarrow>
                       (JArr [], emit [Error (js ''Error loading tasks from localStorage:'')] st)
                   | Some loadedTasks \<Rightarrow> (loadedTasks, st))))
      else
        (JArr [], emit [Warn (js ''localStorage is not available. Cannot load tasks.'')] st))"


section \<open>Sequences of mutating operations\<close>

datatype operation =
    Create env jsstring
  | UpdateStatus env jsstring bool
  | Delete env jsstring

fun step :: "operation \<Rightarrow> state \<Rightarrow> outcome \<times> state" where
  "step (Create e ttl) st = createNewTask e ttl st"
| "step (UpdateStatus e taskId b) st = updateTaskStatus e taskId b st"
| "step (Delete e taskId) st = deleteTask e taskId st"

text \<open>
  The user interface catches a rejected operation and goes on, so a sequence of operations
  runs to its end whatever the outcomes are.
\<close>

fun run :: "operation list \<Rightarrow> state \<Rightarrow> state" where
  "run [] st = st"
| "run (op # ops) st = run ops (snd (step op st))"

text \<open>
  Generated ids are fresh along a sequence when every Create that passes the title check
  draws an id that no task of the list has at that moment.
\<close>

fun fresh_ids :: "operation list \<Rightarrow> state \<Rightarrow> bool" where
  "fresh_ids [] st = True"
| "fresh_ids (op # ops) st =
     ((case op of
         Create e ttl \<Rightarrow> trim ttl = [] \<or> new_task_id e \<notin> set (map id' (tasks st))
       | UpdateStatus e taskId b \<Rightarrow> True
       | Delete e taskId \<Rightarrow> True) \<and>
      fresh_ids ops (snd (step op st)))"


section \<open>What an operation did\<close>

text \<open>
  The events an operation added to the trace, and among them its effects: the commits to
  the subject and the calls of \<open>setItem\<close>, in program order.
\<close>

definition new_events :: "state \<Rightarrow> state \<Rightarrow> event list" where
  "new_events st st' = drop (length (trace st)) (trace st')"

fun is_effect :: "event \<Rightarrow> bool" where
  "is_effect (Commit ts) = True"
| "is_effect (SetItem k v) = True"
| "is_effect (Warn m) = False"
| "is_effect (Error m) = False"

definition effects :: "state \<Rightarrow> state \<Rightarrow> event list" where
  "effects st st' = filter is_effect (new_events st st')"

section \<open>Sample platforms and data\<close>

definition browser :: env where
  "browser =
     \<lparr>has_localStorage = True, getItem_throws = False, setItem_throws = False,
      Date_now = 1700000000123, random_suffix = js ''k3x9q''\<rparr>"

definition server :: env where
  "server = browser\<lparr>has_localStorage := False\<rparr>"


definition task_a :: Task where
  "task_a = \<lparr>id' = js ''a'', title = js ''Buy milk'', isComplete = False\<rparr>"

definition task_b :: Task where
  "task_b = \<lparr>id' = js ''b'', title = js ''Walk'', isComplete = True\<rparr>"

definition store_ab :: state where
  "store_ab = \<lparr>tasks = [task_a, task_b], localStorage = Map.empty, trace = []\<rparr>"

section \<open>Basic facts\<close>

lemma trim_Nil [simp]: "trim [] = []"
  by (simp add: trim_def)

lemma new_events_emit [simp]: "new_events st (emit es st) = es"
  by (simp add: new_events_def emit_def)

text \<open>
  Committing a list and saving it: the subject holds the list, the outcome is rejected
  exactly when \<open>setItem\<close> throws, the storage takes the JSON text of the list exactly when
  the write succeeds, and the commit comes before the call of \<open>setItem\<close>.
\<close>

lemma save_after_commit:
  "saveTasksToDevice e l (next_tasks l st) = (out, st') \<Longrightarrow>
     tasks st' = l \<and>
     out = (if has_localStorage e \<and> setItem_throws e then Rejected else Resolved) \<and>
     localStorage st' =
       (if has_localStorage e \<and> \<not> setItem_throws e
        then (localStorage st)(TASKS_STORAGE_KEY \<mapsto> JSON_stringify l) else localStorage st) \<and>
     effects st st' =
       Commit l # (if has_localStorage e then [SetItem TASKS_STORAGE_KEY (JSON_stringify l)] else [])"
  by (auto simp: saveTasksToDevice_def next_tasks_def emit_def effects_def new_events_def Let_def
      split: if_splits)

lemma tasks_after_save [simp]:
  "tasks (snd (saveTasksToDevice e l (next_tasks l st))) = l"
  by (simp add: saveTasksToDevice_def next_tasks_def emit_def Let_def)


lemma tasks_of_json_empty [simp]: "tasks_of_json (JArr []) = Some []"
  by (simp add: tasks_of_json_def)

section \<open>Create with a blank title\<close>

text \<open>
  C1, as the code has it. For every title that is empty or consists of white space only,
  \<open>createNewTask\<close> changes neither the list of the store nor the storage, commits nothing
  and calls no \<open>setItem\<close>. It does not fail: its promise resolves, and the only signal is
  the warning on the console.
\<close>

theorem createNewTask_blank_title:
  assumes "trim ttl = []"
  shows "fst (createNewTask e ttl st) = Resolved \<and>
     tasks (snd (createNewTask e ttl st)) = tasks st \<and>
     localStorage (snd (createNewTask e ttl st)) = localStorage st \<and>
     effects st (snd (createNewTask e ttl st)) = [] \<and>
     new_events st (snd (createNewTask e ttl st)) =
       [Warn (js ''Cannot create task with empty title.'')]"
  using assms by (simp add: createNewTask_def emit_def effects_def new_events_def)

theorem createNewTask_blank_title_witness:
  "trim (js ''  '') = [] \<and>
   fst (createNewTask browser (js ''  '') store_ab) = Resolved \<and>
   tasks (snd (createNewTask browser (js ''  '') store_ab)) = tasks store_ab \<and>
   length (tasks (snd (createNewTask browser (js ''  '') store_ab))) = 2 \<and>
   effects store_ab (snd (createNewTask browser (js ''  '') store_ab)) = []"
proof -
  have h: "trim (js ''  '') = []"
    by (simp add: trim_def js_def is_trim_space_def)
  from h createNewTask_blank_title [OF h, of browser store_ab] show ?thesis
    by (simp add: store_ab_def)
qed

text \<open>
  C1 as stated fails: with the title of two spaces the operation does not fail, so no
  ValidationError reaches the caller.
\<close>

theorem createNewTask_blank_title_not_rejected:
  "fst (createNewTask browser (js ''  '') (initial Map.empty)) \<noteq> Rejected"
  by (simp add: createNewTask_def trim_def js_def is_trim_space_def)

section \<open>Uniqueness of ids\<close>

lemma id_update [simp]:
  "id' \<circ> (\<lambda>task. if id' task = taskId then task\<lparr>isComplete := b\<rparr> else task) = id'"
  by (rule ext) simp

lemma step_distinct:
  assumes "distinct (map id' (tasks st))" and "fresh_ids [op] st"
  shows "distinct (map id' (tasks (snd (step op st))))"
proof (cases op)
  case (Create e ttl)
  with assms show ?thesis
    by (auto simp: createNewTask_def emit_def Let_def)
next
  case (UpdateStatus e taskId b)
  with assms show ?thesis
    by (auto simp: updateTaskStatus_def emit_def Let_def)
next
  case (Delete e taskId)
  with assms show ?thesis
    by (auto simp: deleteTask_def emit_def Let_def distinct_map_filter)
qed

lemma run_distinct:
  "distinct (map id' (tasks st)) \<Longrightarrow> fresh_ids ops st \<Longrightarrow>
   distinct (map id' (tasks (run ops st)))"
proof (induction ops arbitrary: st)
  case Nil
  then show ?case by simp
next
  case (Cons op ops)
  from Cons.prems have "fresh_ids [op] st" and f: "fresh_ids ops (snd (step op st))"
    by simp_all
  with Cons.prems(1) have "distinct (map id' (tasks (snd (step op st))))"
    by (simp add: step_distinct)
  with f show ?case by (simp add: Cons.IH)
qed

text \<open>
  C2, as the code has it. Starting from the empty store, after every sequence of Create,
  UpdateStatus and Delete in which each Create draws an id that no task of the list has at
  that moment, the ids of the list are pairwise distinct.
\<close>

theorem ids_unique_when_fresh:
  "fresh_ids ops (initial storage) \<Longrightarrow>
   distinct (map id' (tasks (run ops (initial storage))))"
  by (rule run_distinct) (simp_all add: initial_def)

theorem ids_unique_when_fresh_witness:
  "fresh_ids [Create browser (js ''a''), Create (browser\<lparr>Date_now := 1700000000124\<rparr>) (js ''b''),
      UpdateStatus browser (new_task_id browser) True, Delete browser (new_task_id browser)]
     (initial Map.empty) \<and>
   distinct (map id' (tasks (run [Create browser (js ''a''),
      Create (browser\<lparr>Date_now := 1700000000124\<rparr>) (js ''b''),
      UpdateStatus browser (new_task_id browser) True, Delete browser (new_task_id browser)]
     (initial Map.empty))))"
proof -
  have f: "fresh_ids [Create browser (js ''a''), Create (browser\<lparr>Date_now := 1700000000124\<rparr>) (js ''b''),
      UpdateStatus browser (new_task_id browser) True, Delete browser (new_task_id browser)]
     (initial Map.empty)"
    by (simp add: createNewTask_def saveTasksToDevice_def next_tasks_def emit_def Let_def
      initial_def trim_def is_trim_space_def js_def browser_def new_task_id_def show_int_def
      show_nat.simps digit_def)
  from f ids_unique_when_fresh [OF f] show ?thesis by simp
qed

text \<open>
  C2 as stated fails: two Creates in the same millisecond whose random suffixes agree
  give two tasks with one id.
\<close>

theorem ids_collide:
  "\<not> distinct (map id' (tasks (run [Create browser (js ''a''), Create browser (js ''b'')]
       (initial Map.empty))))"
  by (simp add: createNewTask_def saveTasksToDevice_def next_tasks_def emit_def Let_def
      initial_def trim_def is_trim_space_def js_def browser_def)

section \<open>Create with a proper title\<close>

text \<open>
  C3, as the code has it. For every title that is not empty after trimming, \<open>createNewTask\<close>
  builds a task with the id \<open>task-\<close>, the clock value, \<open>-\<close> and the random suffix, with
  the trimmed title and \<open>isComplete = false\<close>, puts it at the end of the list read from the
  store, commits that list and then hands the same list to the save: with a storage,
  \<open>setItem\<close> is called once, after the commit, with the JSON text of that list, which the
  storage holds afterwards unless \<open>setItem\<close> throws (then the operation is rejected).
  Nothing checks the new id against the ids of the list.
\<close>

theorem createNewTask_appends:
  assumes "trim ttl \<noteq> []"
  shows "(let newTask =
            \<lparr>id' = js ''task-'' @ show_int (Date_now e) @ js ''-'' @ random_suffix e,
             title = trim ttl, isComplete = False\<rparr>;
          l = tasks st @ [newTask];
          r = createNewTask e ttl st
      in tasks (snd r) = l \<and>
         effects st (snd r) =
           Commit l # (if has_localStorage e then [SetItem TASKS_STORAGE_KEY (JSON_stringify l)] else []) \<and>
         localStorage (snd r) =
           (if has_localStorage e \<and> \<not> setItem_throws e
            then (localStorage st)(TASKS_STORAGE_KEY \<mapsto> JSON_stringify l) else localStorage st) \<and>
         fst r = (if has_localStorage e \<and> setItem_throws e then Rejected else Resolved))"
proof -
  define l where
    "l = tasks st @ [\<lparr>id' = js ''task-'' @ show_int (Date_now e) @ js ''-'' @ random_suffix e,
           title = trim ttl, isComplete = False\<rparr>]"
  from assms have nonempty: "ttl \<noteq> []" by auto
  have c: "createNewTask e ttl st = saveTasksToDevice e l (next_tasks l st)"
    using assms nonempty by (simp add: createNewTask_def new_task_id_def l_def Let_def)
  obtain out st' where o: "saveTasksToDevice e l (next_tasks l st) = (out, st')"
    by (cases "saveTasksToDevice e l (next_tasks l st)")
  from save_after_commit [OF o] c o show ?thesis
    by (simp add: Let_def l_def [symmetric])
qed

theorem createNewTask_appends_witness:
  "trim (js '' Buy milk '') \<noteq> [] \<and>
   tasks (snd (createNewTask browser (js '' Buy milk '') (initial Map.empty))) =
     [\<lparr>id' = js ''task-1700000000123-k3x9q'', title = js ''Buy milk'', isComplete = False\<rparr>] \<and>
   fst (createNewTask browser (js '' Buy milk '') (initial Map.empty)) = Resolved"
proof -
  have h: "trim (js '' Buy milk '') \<noteq> []"
    by (simp add: trim_def js_def is_trim_space_def)
  have t: "trim (js '' Buy milk '') = js ''Buy milk''"
    by (simp add: trim_def js_def is_trim_space_def)
  have i: "show_int (Date_now browser) = js ''1700000000123''"
    by (simp add: browser_def show_int_def show_nat.simps digit_def js_def)
  from h createNewTask_appends [OF h, of browser "initial Map.empty"] show ?thesis
    by (simp add: Let_def t i) (simp add: browser_def initial_def js_def)
qed

text \<open>
  C3 as stated fails: a second Create at the same clock value and with the same random
  suffix appends a task whose id is the id of the task that is already in the list.
\<close>

theorem createNewTask_id_not_fresh:
  "id' (last (tasks (snd (createNewTask browser (js ''b'')
      (snd (createNewTask browser (js ''a'') (initial Map.empty))))))) \<in>
   set (map id' (tasks (snd (createNewTask browser (js ''a'') (initial Map.empty)))))"
  by (simp add: createNewTask_def saveTasksToDevice_def next_tasks_def emit_def Let_def
      initial_def trim_def is_trim_space_def js_def browser_def)

section \<open>UpdateStatus without a change\<close>

lemma map_update_same:
  "\<forall>t \<in> set ts. id' t = taskId \<longrightarrow> isComplete t = b \<Longrightarrow>
   map (\<lambda>task. if id' task = taskId then task\<lparr>isComplete := b\<rparr> else task) ts = ts"
  by (induction ts) auto

text \<open>
  C5. When no task of the list has the id, or every task that has it already has the given
  \<open>isComplete\<close>, \<open>updateTaskStatus\<close> commits nothing and calls no \<open>setItem\<close>: the list and
  the storage stay as they are, the promise resolves, and the only signal is the warning on
  the console.
\<close>

theorem updateTaskStatus_noop:
  assumes "\<forall>t \<in> set (tasks st). id' t = taskId \<longrightarrow> isComplete t = b"
  shows "fst (updateTaskStatus e taskId b st) = Resolved \<and>
     tasks (snd (updateTaskStatus e taskId b st)) = tasks st \<and>
     localStorage (snd (updateTaskStatus e taskId b st)) = localStorage st \<and>
     effects st (snd (updateTaskStatus e taskId b st)) = [] \<and>
     new_events st (snd (updateTaskStatus e taskId b st)) =
       [Warn (js ''Task with ID: '' @ taskId @ js '' not found for updating status.'')]"
  using map_update_same [OF assms]
  by (simp add: updateTaskStatus_def emit_def effects_def new_events_def)

theorem updateTaskStatus_noop_witness:
  "fst (updateTaskStatus browser (js ''b'') True store_ab) = Resolved \<and>
   tasks (snd (updateTaskStatus browser (js ''b'') True store_ab)) = [task_a, task_b] \<and>
   effects store_ab (snd (updateTaskStatus browser (js ''b'') True store_ab)) = [] \<and>
   fst (updateTaskStatus browser (js ''zz'') False store_ab) = Resolved \<and>
   tasks (snd (updateTaskStatus browser (js ''zz'') False store_ab)) = [task_a, task_b] \<and>
   effects store_ab (snd (updateTaskStatus browser (js ''zz'') False store_ab)) = []"
proof -
  have h1: "\<forall>t \<in> set (tasks store_ab). id' t = js ''b'' \<longrightarrow> isComplete t = True"
    by (simp add: store_ab_def task_a_def task_b_def js_def)
  have h2: "\<forall>t \<in> set (tasks store_ab). id' t = js ''zz'' \<longrightarrow> isComplete t = False"
    by (simp add: store_ab_def task_a_def task_b_def js_def)
  show ?thesis
    using updateTaskStatus_noop [OF h1, of browser] updateTaskStatus_noop [OF h2, of browser]
    by (simp add: store_ab_def)
qed

section \<open>Delete\<close>






section \<open>Load falls back to the empty list\<close>



section \<open>Commit before write\<close>



section \<open>JSON.parse reads back what JSON.stringify wrote\<close>

text \<open>Every code unit is the value of its four hexadecimal digits.\<close>

lemma hex_val_hex_digit_all: "\<forall>d \<in> set [0..<16]. hex_val (hex_digit d) = Some d"
  by code_simp

lemma hex_val_hex_digit: "d < 16 \<Longrightarrow> hex_val (hex_digit d) = Some d"
  using hex_val_hex_digit_all by simp

lemma radix_step: "\<exists>q r. (n::nat) = 16 * q + r \<and> q = n div 16 \<and> r = n mod 16"
  by simp

lemma nibbles: "n < 65536 \<Longrightarrow>
  4096 * (n div 4096 mod 16) + 256 * (n div 256 mod 16) + 16 * (n div 16 mod 16) + n mod 16 = (n::nat)"
proof -
  assume a: "n < 65536"
  obtain q1 r0 where 0: "n = 16 * q1 + r0" "q1 = n div 16" "r0 = n mod 16"
    using radix_step [of n] by blast
  obtain q2 r1 where 1: "q1 = 16 * q2 + r1" "q2 = q1 div 16" "r1 = q1 mod 16"
    using radix_step [of q1] by blast
  obtain q3 r2 where 2: "q2 = 16 * q3 + r2" "q3 = q2 div 16" "r2 = q2 mod 16"
    using radix_step [of q2] by blast
  have d2: "n div 256 = q2" using 0(2) 1(2) by (simp add: div_mult2_eq)
  have "n div 4096 = n div (256 * 16)" by simp
  also have "\<dots> = n div 256 div 16" by (rule div_mult2_eq)
  finally have d3: "n div 4096 = q3" using d2 2(2) by simp
  have "q3 < 16" using a d3 by (simp add: less_mult_imp_div_less)
  then have m3: "q3 mod 16 = q3" by simp
  have e: "4096 * q3 + 256 * r2 + 16 * r1 + r0 = n"
    using 0(1) 1(1) 2(1) by simp
  show ?thesis
    unfolding d2 d3 m3 0(2,3) [symmetric] 1(3) [symmetric] 2(3) [symmetric] by (rule e)
qed
lemma hex4_UnicodeEscape:
  "hex4 (hex_digit (unat c div 4096 mod 16)) (hex_digit (unat c div 256 mod 16))
        (hex_digit (unat c div 16 mod 16)) (hex_digit (unat c mod 16)) = Some (c :: 16 word)"
proof -
  have "unat c < 65536" using unsigned_less [of c, where ?'a = nat] by simp
  then have n: "4096 * (unat c div 4096 mod 16) + 256 * (unat c div 256 mod 16) +
      16 * (unat c div 16 mod 16) + unat c mod 16 = unat c"
    by (rule nibbles)
  have "hex4 (hex_digit (unat c div 4096 mod 16)) (hex_digit (unat c div 256 mod 16))
        (hex_digit (unat c div 16 mod 16)) (hex_digit (unat c mod 16)) =
      Some (of_nat (4096 * (unat c div 4096 mod 16) + 256 * (unat c div 256 mod 16) +
      16 * (unat c div 16 mod 16) + unat c mod 16))"
    unfolding hex4_def by (simp only: hex_val_hex_digit mod_less_divisor zero_less_numeral
        prod.case option.case)
  then show ?thesis
    by (simp only: n) simp
qed

lemma parse_chars_UnicodeEscape:
  "parse_chars (UnicodeEscape c @ r) = cons_fst c (parse_chars r)"
  by (simp add: UnicodeEscape_def hex4_UnicodeEscape)

lemma parse_chars_escape:
  "simple_escape x = Some u \<Longrightarrow> x \<noteq> 0x75 \<Longrightarrow>
   parse_chars (0x5C # x # r) = cons_fst u (parse_chars r)"
  by simp

lemma parse_chars_plain:
  "c \<noteq> 0x22 \<Longrightarrow> c \<noteq> 0x5C \<Longrightarrow> \<not> c < 0x20 \<Longrightarrow>
   parse_chars (c # r) = cons_fst c (parse_chars r)"
  by simp

lemma parse_chars_quote: "parse_chars (0x22 # r) = Some ([], r)"
  by simp

lemma surrogate_plain:
  "is_high_surrogate c \<or> is_low_surrogate c \<Longrightarrow> c \<noteq> 0x22 \<and> c \<noteq> 0x5C \<and> \<not> c < 0x20"
  by (auto simp: is_high_surrogate_def is_low_surrogate_def word_le_nat_alt word_less_nat_alt)

lemma cons_fst_Some [simp]: "cons_fst c (Some (cs, r)) = Some (c # cs, r)"
  by (simp add: cons_fst_def)

declare parse_chars.simps [simp del]

lemma quote_chars_simple:
  assumes "parse_chars (quote_chars cs @ 0x22 # rest) = Some (cs, rest)"
    and "c = 0x08 \<or> c = 0x09 \<or> c = 0x0A \<or> c = 0x0C \<or> c = 0x0D \<or> c = 0x22 \<or> c = 0x5C"
  shows "parse_chars (quote_chars (c # cs) @ 0x22 # rest) = Some (c # cs, rest)"
proof -
  from assms(2) consider "c = 0x08" | "c = 0x09" | "c = 0x0A" | "c = 0x0C" | "c = 0x0D"
    | "c = 0x22" | "c = 0x5C" by blast
  then show ?thesis
  proof cases
    case 1
    then show ?thesis using assms(1) by (simp add: parse_chars_escape simple_escape_def)
  next
    case 2
    then show ?thesis using assms(1) by (simp add: parse_chars_escape simple_escape_def)
  next
    case 3
    then show ?thesis using assms(1) by (simp add: parse_chars_escape simple_escape_def)
  next
    case 4
    then show ?thesis using assms(1) by (simp add: parse_chars_escape simple_escape_def)
  next
    case 5
    then show ?thesis using assms(1) by (simp add: parse_chars_escape simple_escape_def)
  next
    case 6
    then show ?thesis using assms(1) by (simp add: parse_chars_escape simple_escape_def)
  next
    case 7
    then show ?thesis using assms(1) by (simp add: parse_chars_escape simple_escape_def)
  qed
qed


lemma quote_chars_step:
  assumes ih: "\<And>t. length t < length (c # cs) \<Longrightarrow>
      parse_chars (quote_chars t @ 0x22 # rest) = Some (t, rest)"
  shows "parse_chars (quote_chars (c # cs) @ 0x22 # rest) = Some (c # cs, rest)"
proof -
  have ihcs: "parse_chars (quote_chars cs @ 0x22 # rest) = Some (cs, rest)"
    by (rule ih) simp
  show ?thesis
  proof (cases "c = 0x08 \<or> c = 0x09 \<or> c = 0x0A \<or> c = 0x0C \<or> c = 0x0D \<or> c = 0x22 \<or> c = 0x5C")
    case True
    then show ?thesis by (rule quote_chars_simple [OF ihcs])
  next
    case simple: False
    show ?thesis
    proof (cases "c < 0x20")
      case True
      with simple ihcs show ?thesis
        by (simp add: parse_chars_UnicodeEscape)
    next
      case ctl: False
      show ?thesis
      proof (cases "is_high_surrogate c")
        case hi: True
        show ?thesis
        proof (cases cs)
          case Nil
          with simple ctl hi show ?thesis
            by (simp add: parse_chars_UnicodeEscape parse_chars_quote)
        next
          case (Cons d ds)
          have ihds: "parse_chars (quote_chars ds @ 0x22 # rest) = Some (ds, rest)"
            by (rule ih) (simp add: Cons)
          show ?thesis
          proof (cases "is_low_surrogate d")
            case True
            with simple ctl hi Cons ihds surrogate_plain [of c] surrogate_plain [of d]
            show ?thesis
              by (simp add: parse_chars_plain)
          next
            case False
            with simple ctl hi Cons ihcs
            show ?thesis
              by (simp add: parse_chars_UnicodeEscape)
          qed
        qed
      next
        case nothi: False
        show ?thesis
        proof (cases "is_low_surrogate c")
          case True
          with simple ctl nothi ihcs show ?thesis
            by (simp add: parse_chars_UnicodeEscape)
        next
          case False
          with simple ctl nothi ihcs show ?thesis
            by (simp add: parse_chars_plain)
        qed
      qed
    qed
  qed
qed

lemma parse_chars_quote_chars:
  "parse_chars (quote_chars s @ 0x22 # rest) = Some (s, rest)"
proof (induction s rule: length_induct)
  case (1 s)
  show ?case
  proof (cases s)
    case Nil
    then show ?thesis by (simp add: parse_chars_quote)
  next
    case (Cons c cs)
    have "parse_chars (quote_chars (c # cs) @ 0x22 # rest) = Some (c # cs, rest)"
    proof (rule quote_chars_step)
      fix t :: jsstring
      assume "length t < length (c # cs)"
      with 1 Cons show "parse_chars (quote_chars t @ 0x22 # rest) = Some (t, rest)"
        by simp
    qed
    with Cons show ?thesis by simp
  qed
qed


lemma parse_chars_QuoteJSONString:
  "parse_chars (tl (QuoteJSONString s) @ rest) = Some (s, rest)"
  by (simp add: QuoteJSONString_def parse_chars_quote_chars)

lemma skip_ws_nonws: "\<not> is_json_ws c \<Longrightarrow> skip_ws (c # r) = c # r"
  by (simp add: skip_ws_def)

lemma parse_value_string:
  "parse_value (Suc n) (QuoteJSONString s @ rest) = Ok (JStr s, rest)"
  by (simp add: QuoteJSONString_def skip_ws_def is_json_ws_def parse_chars_quote_chars)

lemma parse_value_bool:
  "parse_value (Suc n) ((if b then js ''true'' else js ''false'') @ rest) = Ok (JBool b, rest)"
  by (simp add: skip_ws_def is_json_ws_def js_def strip_prefix_def)

lemma parse_value_object:
  "parse_value (Suc n) (0x7B # QuoteJSONString k @ r) =
     (case parse_members n (QuoteJSONString k @ r) [] of
        Ok (ps, r') \<Rightarrow> Ok (JObj ps, r')
      | SyntaxError \<Rightarrow> SyntaxError
      | OutOfFuel \<Rightarrow> OutOfFuel)"
  by (simp add: QuoteJSONString_def skip_ws_def is_json_ws_def)

lemma parse_members_last:
  "parse_members (Suc (Suc n))
     (QuoteJSONString k @ 0x3A # (if b then js ''true'' else js ''false'') @ 0x7D # rest) acc =
     Ok (define_property k (JBool b) acc, rest)"
  by (simp add: QuoteJSONString_def skip_ws_def is_json_ws_def parse_chars_quote_chars
      js_def strip_prefix_def)

lemma parse_members_string:
  "parse_members (Suc (Suc n)) (QuoteJSONString k @ 0x3A # QuoteJSONString v @ 0x2C # rest) acc =
     parse_members (Suc n) rest (define_property k (JStr v) acc)"
  by (simp add: QuoteJSONString_def skip_ws_def is_json_ws_def parse_chars_quote_chars)

lemma define_task_properties:
  "define_property (js ''isComplete'') x3
     (define_property (js ''title'') x2 (define_property (js ''id'') x1 [])) =
   [(js ''id'', x1), (js ''title'', x2), (js ''isComplete'', x3)]"
  by (simp add: js_def)

lemma parse_value_empty_array: "parse_value (Suc n) (0x5B # 0x5D # r) = Ok (JArr [], r)"
  by (simp add: skip_ws_def is_json_ws_def)

lemma parse_value_array:
  "parse_value (Suc n) (0x5B # 0x7B # r) =
     (case parse_elements n (0x7B # r) [] of
        Ok (vs, r') \<Rightarrow> Ok (JArr vs, r')
      | SyntaxError \<Rightarrow> SyntaxError
      | OutOfFuel \<Rightarrow> OutOfFuel)"
  by (simp add: skip_ws_def is_json_ws_def)

declare parse_value.simps [simp del] parse_elements.simps [simp del] parse_members.simps [simp del]

lemma parse_value_task:
  "parse_value (Suc (Suc (Suc (Suc (Suc n))))) (stringify_task t @ rest) = Ok (json_of_task t, rest)"
  by (simp add: stringify_task_def parse_value_object parse_members_string parse_members_last
      json_of_task_def) (simp add: js_def)

lemma parse_elements_tasks:
  "parse_elements (Suc (Suc (Suc (Suc (Suc (Suc (length ts + n)))))))
     (join_comma (map stringify_task (t # ts)) @ 0x5D # rest) acc =
     Ok (acc @ map json_of_task (t # ts), rest)"
proof (induction ts arbitrary: t acc)
  case Nil
  have "parse_elements (Suc (Suc (Suc (Suc (Suc (Suc n)))))) (stringify_task t @ 0x5D # rest) acc =
      Ok (acc @ [json_of_task t], rest)"
    by (subst parse_elements.simps) (simp add: parse_value_task skip_ws_def is_json_ws_def)
  then show ?case by simp
next
  case (Cons u ts)
  have "parse_elements (Suc (Suc (Suc (Suc (Suc (Suc (Suc (length ts + n))))))))
      (stringify_task t @ 0x2C # join_comma (map stringify_task (u # ts)) @ 0x5D # rest) acc =
    parse_elements (Suc (Suc (Suc (Suc (Suc (Suc (length ts + n)))))))
      (join_comma (map stringify_task (u # ts)) @ 0x5D # rest) (acc @ [json_of_task t])"
    by (subst parse_elements.simps)
      (simp add: parse_value_task skip_ws_def is_json_ws_def)
  with Cons.IH [of u "acc @ [json_of_task t]"] show ?case by simp
qed

lemma stringify_task_length: "4 \<le> length (stringify_task t)"
  by (simp add: stringify_task_def)

lemma join_comma_length:
  "4 * length ts \<le> length (join_comma (map stringify_task ts))"
proof (induction ts rule: induct_list012)
  case 1
  show ?case by simp
next
  case (2 t)
  show ?case using stringify_task_length [of t] by simp
next
  case (3 t u ts)
  then show ?case using stringify_task_length [of t] by simp
qed

lemma stringify_task_brace: "\<exists>r. stringify_task t = 0x7B # r"
  by (simp add: stringify_task_def)

lemma join_comma_brace: "\<exists>r. join_comma (map stringify_task (t # us)) = 0x7B # r"
  using stringify_task_brace [of t] by (cases us) auto

lemma JSON_parse_stringify: "JSON_parse (JSON_stringify ts) = Some (json_of_tasks ts)"
proof (cases ts)
  case Nil
  then show ?thesis
    using parse_value_empty_array [of 4 "[]"]
    by (simp add: JSON_parse_def JSON_stringify_def json_of_tasks_def skip_ws_def)
next
  case (Cons t us)
  define s where "s = JSON_stringify ts"
  define J where "J = join_comma (map stringify_task (t # us))"
  obtain r where r: "J = 0x7B # r"
    using join_comma_brace unfolding J_def by blast
  have s: "s = 0x5B # J @ [0x5D]"
    by (simp add: s_def JSON_stringify_def J_def Cons)
  have l: "4 * length ts + 2 \<le> length s"
    using join_comma_length [of ts] by (simp add: s_def JSON_stringify_def)
  then have "2 * length s = Suc (Suc (Suc (Suc (Suc (Suc (length us + (2 * length s - 6 - length us)))))))"
    using Cons by simp
  then obtain n where n: "2 * length s = Suc (Suc (Suc (Suc (Suc (Suc (length us + n))))))"
    by blast
  have e: "parse_elements (Suc (Suc (Suc (Suc (Suc (Suc (length us + n))))))) (J @ [0x5D]) [] =
     Ok (map json_of_task ts, [])"
    using parse_elements_tasks [of us n t "[]" "[]"] by (simp only: J_def Cons append_Nil)
  have pv: "parse_value (Suc m) (0x5B # J @ [0x5D]) =
     (case parse_elements m (J @ [0x5D]) [] of
        Ok (vs, r') \<Rightarrow> Ok (JArr vs, r')
      | SyntaxError \<Rightarrow> SyntaxError
      | OutOfFuel \<Rightarrow> OutOfFuel)" for m
    unfolding r by (simp add: parse_value_array)
  have "parse_value (Suc (2 * length s)) (0x5B # J @ [0x5D]) = Ok (JArr (map json_of_task ts), [])"
    unfolding n pv e by simp
  then show ?thesis
    by (simp add: JSON_parse_def s_def [symmetric] s [symmetric] json_of_tasks_def skip_ws_def)
qed

lemma tasks_of_json_of_tasks: "tasks_of_json (json_of_tasks ts) = Some ts"
  by (induction ts) (simp_all add: tasks_of_json_def json_of_tasks_def task_of_json_def json_of_task_def)


section \<open>The recursion bound of the parser is never reached\<close>

text \<open>
  Every successful step of the parser consumes input, so the depth of the recursion stays
  below twice the length of the text. \<open>OutOfFuel\<close> is handed upwards unchanged, hence a
  result other than \<open>OutOfFuel\<close> is the result of the parser without a bound.
\<close>

lemma skip_ws_le: "length (skip_ws s) \<le> length s"
  by (simp add: skip_ws_def length_dropWhile_le)

lemma skip_ws_Cons: "skip_ws s = c # r \<Longrightarrow> length r < length s"
  using skip_ws_le [of s] by simp

lemma cons_fst_Some_iff:
  "cons_fst c x = Some (str, r) \<longleftrightarrow> (\<exists>cs. x = Some (cs, r) \<and> str = c # cs)"
  by (auto simp: cons_fst_def split: option.splits)

lemma parse_chars_shorter: "parse_chars s = Some (str, r) \<Longrightarrow> length r < length s"
proof (induction s arbitrary: str rule: length_induct)
  case (1 s)
  show ?case
  proof (cases s)
    case Nil
    with 1 show ?thesis by (simp add: parse_chars.simps)
  next
    case (Cons c cs)
    have ih: "parse_chars t = Some (u, r) \<Longrightarrow> length t \<le> length cs \<Longrightarrow> length r < length t" for t u
      using 1(1) Cons by auto
    from 1(2) show ?thesis
      unfolding Cons
      apply (subst (asm) parse_chars.simps)
      apply (auto simp: cons_fst_Some_iff split: if_splits list.splits option.splits dest!: ih)
      done
  qed
qed


lemma strip_prefix_shorter:
  "strip_prefix p s = Some r \<Longrightarrow> p \<noteq> [] \<Longrightarrow> length r < length s"
proof -
  assume a: "strip_prefix p s = Some r" and p: "p \<noteq> []"
  then have t: "take (length p) s = p" and r: "r = drop (length p) s"
    by (auto simp: strip_prefix_def split: if_splits)
  from t have "length (take (length p) s) = length p"
    by (rule arg_cong)
  then have "length p \<le> length s"
    by simp
  with p r show ?thesis by (cases p) auto
qed

lemma scan_digits_shorter: "scan_digits s = Some (ds, r) \<Longrightarrow> length r < length s"
proof -
  assume "scan_digits s = Some (ds, r)"
  then have t: "takeWhile is_digit s \<noteq> []" and r: "r = dropWhile is_digit s"
    by (auto simp: scan_digits_def split: if_splits)
  have "length (takeWhile is_digit s) + length (dropWhile is_digit s) = length s"
    by (metis length_append takeWhile_dropWhile_id)
  with t r show ?thesis by (cases "takeWhile is_digit s") auto
qed

lemma scan_int_shorter: "scan_int s = Some (ds, r) \<Longrightarrow> length r < length s"
  by (auto simp: scan_int_def split: list.splits if_splits dest: scan_digits_shorter)

lemma scan_frac_le: "scan_frac s = Some (ds, r) \<Longrightarrow> length r \<le> length s"
  by (auto simp: scan_frac_def split: list.splits if_splits option.splits
      dest!: scan_digits_shorter)

lemma scan_exp_le: "scan_exp s = Some (ds, r) \<Longrightarrow> length r \<le> length s"
  by (auto simp: scan_exp_def split: list.splits if_splits option.splits
      dest!: scan_digits_shorter)

lemma scan_number_shorter: "scan_number s = Some (num, r) \<Longrightarrow> length r < length s"
proof -
  assume a: "scan_number s = Some (num, r)"
  define s1 where "s1 = (case s of [] \<Rightarrow> s | c # t \<Rightarrow> if c = 0x2D then t else s)"
  have l1: "length s1 \<le> length s"
    by (simp add: s1_def split: list.splits)
  from a obtain ip s2 fp s3 ep where
    i: "scan_int s1 = Some (ip, s2)" and f: "scan_frac s2 = Some (fp, s3)"
    and e: "scan_exp s3 = Some (ep, r)"
    by (auto simp: scan_number_def s1_def split: list.splits if_splits option.splits prod.splits)
  from scan_int_shorter [OF i] scan_frac_le [OF f] scan_exp_le [OF e] l1
  show ?thesis by simp
qed


lemma literal_shorter:
  "strip_prefix (js ''true'') s = Some r \<Longrightarrow> length r < length s"
  "strip_prefix (js ''false'') s = Some r \<Longrightarrow> length r < length s"
  "strip_prefix (js ''null'') s = Some r \<Longrightarrow> length r < length s"
  by (auto dest!: strip_prefix_shorter simp: js_def)

lemma parse_shorter:
  "(\<forall>s v r. parse_value n s = Ok (v, r) \<longrightarrow> length r < length s) \<and>
   (\<forall>s acc vs r. parse_elements n s acc = Ok (vs, r) \<longrightarrow> length r < length s) \<and>
   (\<forall>s acc ps r. parse_members n s acc = Ok (ps, r) \<longrightarrow> length r < length s)"
proof (induction n)
  case 0
  show ?case by (simp add: parse_value.simps parse_elements.simps parse_members.simps)
next
  case (Suc n)
  have ihv: "parse_value n s = Ok (v, r) \<Longrightarrow> length r < length s" for s v r
    using Suc.IH by blast
  have ihe: "parse_elements n s acc = Ok (vs, r) \<Longrightarrow> length r < length s" for s acc vs r
    using Suc.IH by blast
  have ihm: "parse_members n s acc = Ok (ps, r) \<Longrightarrow> length r < length s" for s acc ps r
    using Suc.IH by blast
  have v: "length r < length s" if "parse_value (Suc n) s = Ok (v, r)" for s v r
    using that
    apply (subst (asm) parse_value.simps)
    apply (auto split: list.splits if_splits option.splits result.splits prod.splits
        dest!: skip_ws_Cons parse_chars_shorter ihe ihm literal_shorter scan_number_shorter)
    done
  have e: "length r < length s" if "parse_elements (Suc n) s acc = Ok (vs, r)" for s acc vs r
    using that
    apply (subst (asm) parse_elements.simps)
    apply (auto split: list.splits if_splits option.splits result.splits prod.splits
        dest!: skip_ws_Cons ihv ihe)
    done
  have m: "length r < length s" if "parse_members (Suc n) s acc = Ok (ps, r)" for s acc ps r
    using that
    apply (subst (asm) parse_members.simps)
    apply (auto split: list.splits if_splits option.splits result.splits prod.splits
        dest!: skip_ws_Cons parse_chars_shorter ihv ihm)
    done
  from v e m show ?case by blast
qed


lemma parse_value_shorter: "parse_value n s = Ok (v, r) \<Longrightarrow> length r < length s"
  using parse_shorter [of n] by blast

lemma parse_no_OutOfFuel:
  "(\<forall>s. 2 * length s < n \<longrightarrow> parse_value n s \<noteq> OutOfFuel) \<and>
   (\<forall>s acc. 2 * length s + 1 < n \<longrightarrow> parse_elements n s acc \<noteq> OutOfFuel) \<and>
   (\<forall>s acc. 2 * length s + 1 < n \<longrightarrow> parse_members n s acc \<noteq> OutOfFuel)"
proof (induction n)
  case 0
  show ?case by simp
next
  case (Suc n)
  have ihv: "parse_value n s = OutOfFuel \<Longrightarrow> 2 * length s < n \<Longrightarrow> False" for s
    using Suc.IH by blast
  have ihe: "parse_elements n s acc = OutOfFuel \<Longrightarrow> 2 * length s + 1 < n \<Longrightarrow> False" for s acc
    using Suc.IH by blast
  have ihm: "parse_members n s acc = OutOfFuel \<Longrightarrow> 2 * length s + 1 < n \<Longrightarrow> False" for s acc
    using Suc.IH by blast
  have v: False if "parse_value (Suc n) s = OutOfFuel" "2 * length s < Suc n" for s
    using that
    apply (subst (asm) parse_value.simps)
    apply (auto split: list.splits if_splits option.splits result.splits prod.splits
        dest!: skip_ws_Cons ihe ihm)
    done
  have e: False if "parse_elements (Suc n) s acc = OutOfFuel" "2 * length s + 1 < Suc n" for s acc
    using that
    apply (subst (asm) parse_elements.simps)
    apply (auto split: list.splits if_splits option.splits result.splits prod.splits
        dest!: skip_ws_Cons parse_value_shorter ihv ihe)
    done
  have m: False if "parse_members (Suc n) s acc = OutOfFuel" "2 * length s + 1 < Suc n" for s acc
    using that
    apply (subst (asm) parse_members.simps)
    apply (auto split: list.splits if_splits option.splits result.splits prod.splits
        dest!: skip_ws_Cons parse_chars_shorter parse_value_shorter ihv ihm)
    done
  from v e m show ?case by blast
qed

lemma parse_value_fuel: "parse_value (2 * length s + 1) s \<noteq> OutOfFuel"
  using parse_no_OutOfFuel [of "2 * length s + 1"] by simp

section \<open>Save, then read\<close>

lemma JSON_stringify_nonempty: "JSON_stringify ts \<noteq> []"
  by (simp add: JSON_stringify_def)

text \<open>
  C7, as the code has it. For every list of tasks, when there is a storage and neither
  \<open>setItem\<close> nor the read throws, \<open>_saveTasksToDevice\<close> followed by
  \<open>_loadTasksFromDevice\<close> yields the array of the same tasks, field by field and in the
  same order.
\<close>

theorem save_then_read:
  assumes "has_localStorage e" and "\<not> setItem_throws e"
    and "has_localStorage e'" and "\<not> getItem_throws e'"
  shows "fst (loadTasksFromDevice e' (snd (saveTasksToDevice e ts st))) = json_of_tasks ts \<and>
     tasks_of_json (fst (loadTasksFromDevice e' (snd (saveTasksToDevice e ts st)))) = Some ts"
  using assms
  by (simp add: saveTasksToDevice_def loadTasksFromDevice_def emit_def Let_def
      JSON_stringify_nonempty JSON_parse_stringify tasks_of_json_of_tasks)

theorem save_then_read_witness:
  "fst (loadTasksFromDevice browser (snd (saveTasksToDevice browser [] store_ab))) = JArr [] \<and>
   tasks_of_json (fst (loadTasksFromDevice browser
     (snd (saveTasksToDevice browser [task_a] store_ab)))) = Some [task_a] \<and>
   tasks_of_json (fst (loadTasksFromDevice browser
     (snd (saveTasksToDevice browser [task_a, task_b, task_a] store_ab)))) = Some [task_a, task_b, task_a]"
proof -
  have b: "has_localStorage browser" "\<not> setItem_throws browser" "\<not> getItem_throws browser"
    by (simp_all add: browser_def)
  from save_then_read [OF b(1) b(2) b(1) b(3), of "[]" store_ab, THEN conjunct1]
    save_then_read [OF b(1) b(2) b(1) b(3), of "[task_a]" store_ab, THEN conjunct2]
    save_then_read [OF b(1) b(2) b(1) b(3), of "[task_a, task_b, task_a]" store_ab, THEN conjunct2]
  show ?thesis by (simp add: json_of_tasks_def)
qed

text \<open>
  C7 as stated fails where there is no storage (the source resolves the save all the same,
  for graceful degradation): the save of one task resolves, and the read that follows
  yields the empty array.
\<close>

theorem save_without_storage_reads_empty:
  "fst (saveTasksToDevice server [task_a] (initial Map.empty)) = Resolved \<and>
   fst (loadTasksFromDevice server (snd (saveTasksToDevice server [task_a] (initial Map.empty)))) =
     JArr [] \<and>
   JArr [] \<noteq> json_of_tasks [task_a]"
  by (simp add: saveTasksToDevice_def loadTasksFromDevice_def server_def emit_def
      json_of_tasks_def)

section \<open>UpdateStatus with a change\<close>






end
